theory Spec2Isabelle
  imports Main
begin

section \<open>Workspace registry and request scoping of \<open>lightrag/api/workspaces.py\<close>\<close>

text \<open>
  A shallow embedding of the module \<open>lightrag.api.workspaces\<close>. Python strings are
  \<open>string\<close>s whose characters stand for the code points U+0000 to U+00FF; a dataclass is
  a record; a \<open>dict\<close> is an association list in insertion order; a raised
  exception is a value; the records handed to the module's logger are returned as a list
  beside the result. Contexts are values: nothing mutates a context between two calls.
\<close>

subsection \<open>Python builtins used by the module\<close>

text \<open>
  \<open>str.isspace\<close> on one character below U+0100: the ASCII whitespace table of the
  interpreter (U+0009 to U+000D, U+001C to U+001F, U+0020) and the two Latin-1
  whitespace characters U+0085 and U+00A0.
\<close>

definition isspace :: "char \<Rightarrow> bool" where
  "isspace c = (of_char c \<in> {9, 10, 11, 12, 13, 28, 29, 30, 31, 32, 133, 160 :: nat})"

text \<open>\<open>s.strip()\<close>: whitespace is removed at both ends, never inside.\<close>

definition lstrip :: "string \<Rightarrow> string" where
  "lstrip s = dropWhile isspace s"

definition rstrip :: "string \<Rightarrow> string" where
  "rstrip s = rev (dropWhile isspace (rev s))"

definition strip :: "string \<Rightarrow> string" where
  "strip s = rstrip (lstrip s)"

text \<open>
  \<open>s.split(sep)\<close> for a separator of one character: the pieces between the
  separators, empty pieces kept, so a string with \<open>n\<close> separators has \<open>n + 1\<close> pieces
  and the empty string has the one piece \<open>''''\<close>.
\<close>

fun split :: "char \<Rightarrow> string \<Rightarrow> string list" where
  "split sep [] = [[]]"
| "split sep (c # cs) =
     (if c = sep then [] # split sep cs
      else (case split sep cs of
              [] \<Rightarrow> [[c]]
            | piece # pieces \<Rightarrow> (c # piece) # pieces))"

text \<open>\<open>sep.join(pieces)\<close>, the inverse of \<open>split\<close>.\<close>

fun join :: "char \<Rightarrow> string list \<Rightarrow> string" where
  "join sep [] = []"
| "join sep [piece] = piece"
| "join sep (piece # pieces) = piece @ sep # join sep pieces"

text \<open>\<open>a or b\<close> where \<open>a\<close> is an \<open>Optional[str]\<close>: \<open>None\<close> and \<open>""\<close> are falsy.\<close>

definition truthy :: "string option \<Rightarrow> bool" where
  "truthy a = (case a of None \<Rightarrow> False | Some s \<Rightarrow> s \<noteq> [])"

definition or_else :: "string option \<Rightarrow> string \<Rightarrow> string" where
  "or_else a b = (case a of None \<Rightarrow> b | Some s \<Rightarrow> if s \<noteq> [] then s else b)"

text \<open>The single quote of the f-strings.\<close>

definition quote :: "string \<Rightarrow> string" where
  "quote s = [CHR 0x27] @ s @ [CHR 0x27]"

subsection \<open>Exceptions and log records\<close>

text \<open>
  The two exceptions the module raises itself: \<open>HTTPException(status_code, detail)\<close> and
  \<open>RuntimeError(message)\<close>.
\<close>

datatype exn = HTTPException nat string | RuntimeError string

datatype log_record = Info string | Warning string | Error string

subsection \<open>Data model\<close>

record 'v WorkspaceConfig =
  id_field :: string
  display_name :: "string option"
  description :: "string option"
  enabled :: bool
  metadata :: "(string \<times> 'v) list"

text \<open>\<open>WorkspaceConfig(id=workspace_id)\<close>: every other field at its default.\<close>

definition WorkspaceConfig_of_id :: "string \<Rightarrow> 'v WorkspaceConfig" where
  "WorkspaceConfig_of_id workspace_id =
     \<lparr>id_field = workspace_id, display_name = None, description = None,
      enabled = True, metadata = []\<rparr>"

record ('v, 'r, 'd) WorkspaceContext =
  config :: "'v WorkspaceConfig"
  rag :: 'r
  document_manager :: 'd
  initialized :: bool
  error :: "string option"

definition ctx_id :: "('v, 'r, 'd) WorkspaceContext \<Rightarrow> string" where
  "ctx_id ctx = id_field (config ctx)"

subsection \<open>Configuration parser\<close>

definition parse_workspace_ids :: "string \<Rightarrow> string list" where
  "parse_workspace_ids raw_ids =
     filter (\<lambda>workspace_id. workspace_id \<noteq> []) (map strip (split CHR '','' raw_ids))"

record args =
  workspace :: "string option"

text \<open>The loop "Ensure unique ids", with its three variables as arguments.\<close>

fun ensure_unique ::
  "'v WorkspaceConfig list \<Rightarrow> string set \<Rightarrow> 'v WorkspaceConfig list \<Rightarrow> log_record list
     \<Rightarrow> 'v WorkspaceConfig list \<times> log_record list" where
  "ensure_unique [] seen unique_configs logs = (unique_configs, logs)"
| "ensure_unique (cfg # configs) seen unique_configs logs =
     (if id_field cfg \<in> seen
      then ensure_unique configs seen unique_configs
             (logs @ [Warning (''Duplicate workspace id detected: '' @ id_field cfg)])
      else ensure_unique configs (insert (id_field cfg) seen) (unique_configs @ [cfg]) logs)"

text \<open>
  \<open>environ\<close> is the process environment read by \<open>os.getenv\<close>. The result is the
  returned list and the records logged on the way.
\<close>

definition load_workspace_configs ::
  "(string \<rightharpoonup> string) \<Rightarrow> args \<Rightarrow> 'v WorkspaceConfig list \<times> log_record list" where
  "load_workspace_configs environ a =
     (let (configs1, logs1) =
            (case environ ''WORKSPACES'' of
               None \<Rightarrow> ([], [])
             | Some env_value \<Rightarrow>
                 if env_value \<noteq> []
                 then (let configs = map WorkspaceConfig_of_id (parse_workspace_ids env_value)
                       in (configs,
                           if configs = []
                           then [Warning
                                  (''WORKSPACES is set but no valid workspace ids were parsed: ''
                                     @ env_value)]
                           else []))
                 else ([], []));
          configs2 =
            (if configs1 = []
             then (let fallback = or_else (workspace a)
                                    (case environ ''WORKSPACE'' of None \<Rightarrow> [] | Some v \<Rightarrow> v);
                       workspace_id = or_else (Some (strip fallback)) ''default''
                   in [WorkspaceConfig_of_id workspace_id])
             else configs1)
      in ensure_unique configs2 {} [] logs1)"

subsection \<open>Workspace context: the serialised summary\<close>

datatype 'v py_value = Str string | NoneValue | Bool bool | Dict "(string \<times> 'v) list"

definition optional_str :: "string option \<Rightarrow> 'v py_value" where
  "optional_str a = (case a of None \<Rightarrow> NoneValue | Some s \<Rightarrow> Str s)"

definition as_dict :: "('v, 'r, 'd) WorkspaceContext \<Rightarrow> (string \<times> 'v py_value) list" where
  "as_dict ctx =
     [(''id'', Str (id_field (config ctx))),
      (''display_name'', Str (or_else (display_name (config ctx)) (id_field (config ctx)))),
      (''description'', optional_str (description (config ctx))),
      (''enabled'', Bool (enabled (config ctx) \<and> error ctx = None)),
      (''error'', optional_str (error ctx)),
      (''metadata'', Dict (metadata (config ctx)))]"

subsection \<open>Workspace registry\<close>

text \<open>
  \<open>d[k] = v\<close> on a \<open>dict\<close>: an existing key keeps its place and takes the new value, a
  new key goes to the end. \<open>d.get(k)\<close> is \<open>map_of d k\<close>, \<open>k in d\<close> is
  \<open>map_of d k \<noteq> None\<close> and \<open>d.values()\<close> is \<open>map snd d\<close>.
\<close>

fun dict_setitem :: "'k \<Rightarrow> 'a \<Rightarrow> ('k \<times> 'a) list \<Rightarrow> ('k \<times> 'a) list" where
  "dict_setitem k v [] = [(k, v)]"
| "dict_setitem k v ((k', v') # d) =
     (if k' = k then (k, v) # d else (k', v') # dict_setitem k v d)"

record ('v, 'r, 'd) WorkspaceRegistry =
  contexts :: "(string \<times> ('v, 'r, 'd) WorkspaceContext) list"

definition WorkspaceRegistry_init :: "('v, 'r, 'd) WorkspaceRegistry" where
  "WorkspaceRegistry_init = \<lparr>contexts = []\<rparr>"

definition register ::
  "('v, 'r, 'd) WorkspaceRegistry \<Rightarrow> ('v, 'r, 'd) WorkspaceContext
     \<Rightarrow> ('v, 'r, 'd) WorkspaceRegistry \<times> log_record list" where
  "register self ctx =
     (self\<lparr>contexts := dict_setitem (ctx_id ctx) ctx (contexts self)\<rparr>,
      (if map_of (contexts self) (ctx_id ctx) \<noteq> None
       then [Warning (''Workspace '' @ ctx_id ctx @ '' already registered, overriding'')]
       else [])
      @ [Info (''Registered workspace: '' @ ctx_id ctx)])"

definition get ::
  "('v, 'r, 'd) WorkspaceRegistry \<Rightarrow> string \<Rightarrow> ('v, 'r, 'd) WorkspaceContext option" where
  "get self workspace_id = map_of (contexts self) workspace_id"

definition list_contexts ::
  "('v, 'r, 'd) WorkspaceRegistry \<Rightarrow> ('v, 'r, 'd) WorkspaceContext list" where
  "list_contexts self = map snd (contexts self)"

text \<open>A registry after a sequence of \<open>register\<close> calls on a fresh one.\<close>

definition register_all ::
  "('v, 'r, 'd) WorkspaceContext list \<Rightarrow> ('v, 'r, 'd) WorkspaceRegistry" where
  "register_all ctxs = foldl (\<lambda>self ctx. fst (register self ctx)) WorkspaceRegistry_init ctxs"

subsection \<open>The ambient current-workspace slot\<close>

text \<open>
  The state of the context variable \<open>_current_workspace\<close> in one execution context:
  \<open>Missing\<close> when no value was set there, \<open>Value v\<close> after \<open>set(v)\<close>, where \<open>v\<close> is
  \<open>None\<close> or a workspace context. A token remembers the state before its \<open>set\<close>, and
  \<open>reset\<close> puts that state back. The module resets a token once, in the execution
  context that created it, so the errors of \<open>reset\<close> for a used or foreign token have no
  branch here.
\<close>

datatype 'a var_state = Missing | Value 'a

datatype 'a token = Token (old_value: "'a var_state")

definition ContextVar_get :: "'a var_state \<Rightarrow> 'a \<Rightarrow> 'a" where
  "ContextVar_get var dflt = (case var of Missing \<Rightarrow> dflt | Value v \<Rightarrow> v)"

definition ContextVar_set :: "'a var_state \<Rightarrow> 'a \<Rightarrow> 'a token \<times> 'a var_state" where
  "ContextVar_set var v = (Token var, Value v)"

definition ContextVar_reset :: "'a var_state \<Rightarrow> 'a token \<Rightarrow> 'a var_state" where
  "ContextVar_reset var tok = old_value tok"

type_synonym ('v, 'r, 'd) slot = "('v, 'r, 'd) WorkspaceContext option var_state"

definition get_current_workspace ::
  "('v, 'r, 'd) slot \<Rightarrow> exn + ('v, 'r, 'd) WorkspaceContext" where
  "get_current_workspace var =
     (case ContextVar_get var None of
        None \<Rightarrow> Inl (RuntimeError ''Workspace context not found in the current request scope'')
      | Some ctx \<Rightarrow> Inr ctx)"

subsection \<open>Request scoping: the dependency\<close>

text \<open>
  What code outside the module does when it runs: it returns (\<open>None\<close>) or raises
  (\<open>Some\<close> of a failure). \<open>Exception message\<close> is an instance of \<open>Exception\<close> whose \<open>str\<close> is
  the message; \<open>BaseException message\<close> is an instance of \<open>BaseException\<close> only
  (\<open>asyncio.CancelledError\<close>, \<open>GeneratorExit\<close>, \<open>KeyboardInterrupt\<close>, \<open>SystemExit\<close>), which
  \<open>except Exception\<close> does not catch.
\<close>

datatype failure = Exception string | BaseException string

text \<open>
  The request handling that runs while the generator \<open>_apply\<close> is suspended at its
  \<open>yield\<close>: it receives the yielded context, runs in the same execution context, so it
  sees and may change the slot, and ends by resuming the generator (\<open>None\<close>) or by
  throwing into it (an error of the handler, a cancellation, the generator being closed).
\<close>

type_synonym ('v, 'r, 'd) downstream =
  "('v, 'r, 'd) WorkspaceContext \<Rightarrow> ('v, 'r, 'd) slot \<Rightarrow> failure option \<times> ('v, 'r, 'd) slot"

datatype scope_result = Rejected exn | Exited "failure option"

definition dependency_apply ::
  "('v, 'r, 'd) WorkspaceRegistry \<Rightarrow> string \<Rightarrow> ('v, 'r, 'd) downstream \<Rightarrow> ('v, 'r, 'd) slot
     \<Rightarrow> scope_result \<times> ('v, 'r, 'd) slot" where
  "dependency_apply self workspace_id handler var =
     (case get self workspace_id of
        None \<Rightarrow>
          (Rejected (HTTPException 404 (''Workspace '' @ quote workspace_id @ '' not found'')),
           var)
      | Some ctx \<Rightarrow>
          if \<not> enabled (config ctx) \<or> truthy (error ctx)
          then (Rejected (HTTPException 404
                  (or_else (error ctx) (''Workspace '' @ quote workspace_id @ '' is disabled''))),
                var)
          else (let (tok, var1) = ContextVar_set var (Some ctx);
                    (outcome, var2) = handler ctx var1;
                    var3 = ContextVar_reset var2 tok
                in (Exited outcome, var3)))"

subsection \<open>Shutdown\<close>





subsection \<open>Concrete contexts, handlers and engines\<close>

text \<open>
  \<open>WorkspaceContext(WorkspaceConfig(id=i, display_name=n, enabled=e), rag=r,
  document_manager=None, initialized=init, error=err)\<close>, with a number as engine handle.
\<close>

definition WorkspaceContext_of ::
  "string \<Rightarrow> string option \<Rightarrow> bool \<Rightarrow> nat \<Rightarrow> bool \<Rightarrow> string option
     \<Rightarrow> (unit, nat, unit) WorkspaceContext" where
  "WorkspaceContext_of i n e r init err =
     \<lparr>config = \<lparr>id_field = i, display_name = n, description = None, enabled = e, metadata = []\<rparr>,
      rag = r, document_manager = (), initialized = init, error = err\<rparr>"

text \<open>A request handling that ends as given and leaves the slot as it found it.\<close>

definition handler_ending :: "failure option \<Rightarrow> ('v, 'r, 'd) downstream" where
  "handler_ending outcome ctx var = (outcome, var)"

text \<open>A request handling that sets the slot and never resets it.\<close>

definition handler_clobbering :: "failure option \<Rightarrow> ('v, 'r, 'd) downstream" where
  "handler_clobbering outcome ctx var = (outcome, Value None)"


section \<open>Properties\<close>

subsection \<open>Splitting and stripping\<close>

lemma split_not_Nil: "split sep s \<noteq> []"
  by (induction s) (auto split: list.splits)

lemma join_split: "join sep (split sep s) = s"
proof (induction s)
  case Nil
  show ?case by simp
next
  case (Cons c cs)
  obtain piece pieces where sp: "split sep cs = piece # pieces"
    using split_not_Nil [of sep cs] by (cases "split sep cs") auto
  show ?case
  proof (cases "c = sep")
    case True
    with Cons sp show ?thesis by simp
  next
    case False
    with Cons sp show ?thesis by (cases pieces) auto
  qed
qed

lemma split_pieces_free: "piece \<in> set (split sep s) \<Longrightarrow> sep \<notin> set piece"
proof (induction s arbitrary: piece)
  case Nil
  then show ?case by simp
next
  case (Cons c cs)
  then show ?case
    by (cases "split sep cs") (auto split: if_splits)
qed

lemma length_split: "length (split sep s) = Suc (count_list s sep)"
  by (induction s) (auto split: list.splits simp: split_not_Nil)

lemma split_sep_free: "sep \<notin> set piece \<Longrightarrow> split sep piece = [piece]"
  by (induction piece) auto

lemma split_append_sep:
  "sep \<notin> set piece \<Longrightarrow> split sep (piece @ sep # s) = piece # split sep s"
  by (induction piece) auto

lemma split_join:
  "pieces \<noteq> [] \<Longrightarrow> \<forall>piece \<in> set pieces. sep \<notin> set piece \<Longrightarrow>
     split sep (join sep pieces) = pieces"
proof (induction sep pieces rule: join.induct)
  case (1 sep)
  then show ?case by simp
next
  case (2 sep piece)
  then show ?case by (simp add: split_sep_free)
next
  case (3 sep piece q pieces)
  then show ?case by (simp add: split_append_sep)
qed

lemma rstrip_prefix: "s = rstrip s @ rev (takeWhile isspace (rev s))"
proof -
  have "rev (takeWhile isspace (rev s) @ dropWhile isspace (rev s)) = s"
    by (simp only: takeWhile_dropWhile_id rev_rev_ident)
  then show ?thesis
    by (simp only: rev_append rstrip_def)
qed

lemma strip_decompose:
  "s = takeWhile isspace s @ strip s @ rev (takeWhile isspace (rev (lstrip s)))"
proof -
  have "s = takeWhile isspace s @ lstrip s"
    by (simp add: lstrip_def)
  also have "lstrip s = strip s @ rev (takeWhile isspace (rev (lstrip s)))"
    unfolding strip_def by (rule rstrip_prefix)
  finally show ?thesis .
qed

lemma strip_last: "strip s \<noteq> [] \<Longrightarrow> \<not> isspace (last (strip s))"
proof -
  assume ne: "strip s \<noteq> []"
  let ?d = "dropWhile isspace (rev (lstrip s))"
  from ne have "?d \<noteq> []"
    by (simp add: strip_def rstrip_def)
  then have "\<not> isspace (hd ?d)"
    by (rule hd_dropWhile)
  moreover have "last (strip s) = hd ?d"
    using \<open>?d \<noteq> []\<close> by (simp add: strip_def rstrip_def last_rev)
  ultimately show ?thesis by simp
qed

lemma strip_hd: "strip s \<noteq> [] \<Longrightarrow> \<not> isspace (hd (strip s))"
proof -
  assume ne: "strip s \<noteq> []"
  have dec: "lstrip s = strip s @ rev (takeWhile isspace (rev (lstrip s)))"
    unfolding strip_def by (rule rstrip_prefix)
  with ne have l: "lstrip s \<noteq> []"
    by auto
  then have "\<not> isspace (hd (lstrip s))"
    unfolding lstrip_def by (rule hd_dropWhile)
  moreover from ne dec have "hd (lstrip s) = hd (strip s)"
    by (metis hd_append2)
  ultimately show ?thesis by simp
qed

lemma dropWhile_all: "(\<forall>c \<in> set (dropWhile P xs). P c) \<longleftrightarrow> (\<forall>c \<in> set xs. P c)"
  by (induction xs) auto

lemma strip_whitespace_only: "strip s = [] \<longleftrightarrow> (\<forall>c \<in> set s. isspace c)"
  by (simp add: strip_def rstrip_def lstrip_def dropWhile_all)

lemma dropWhile_hd: "xs \<noteq> [] \<Longrightarrow> \<not> P (hd xs) \<Longrightarrow> dropWhile P xs = xs"
  by (cases xs) auto

lemma strip_fixed:
  assumes "s \<noteq> []" and "\<not> isspace (hd s)" and "\<not> isspace (last s)"
  shows "strip s = s"
proof -
  from assms have "lstrip s = s"
    by (simp add: lstrip_def dropWhile_hd)
  moreover from assms have "dropWhile isspace (rev s) = rev s"
    by (simp add: dropWhile_hd hd_rev)
  ultimately show ?thesis
    by (simp add: strip_def rstrip_def)
qed

lemma remdups_snoc: "remdups (xs @ [x]) = filter (\<lambda>y. y \<noteq> x) (remdups xs) @ [x]"
  by (induction xs) auto

lemma first_occurrences_Cons:
  "rev (remdups (rev (x # xs))) = x # filter (\<lambda>y. y \<noteq> x) (rev (remdups (rev xs)))"
  by (simp add: remdups_snoc rev_filter)

lemma ensure_unique_of_ids:
  "fst (ensure_unique (map WorkspaceConfig_of_id ids) seen unique_configs logs) =
     unique_configs @ map WorkspaceConfig_of_id (filter (\<lambda>i. i \<notin> seen) (rev (remdups (rev ids))))"
proof (induction ids arbitrary: seen unique_configs logs)
  case Nil
  show ?case by simp
next
  case (Cons i ids)
  have idf: "id_field (WorkspaceConfig_of_id i :: 'a WorkspaceConfig) = i"
    by (simp add: WorkspaceConfig_of_id_def)
  show ?case
  proof (cases "i \<in> seen")
    case True
    have "filter (\<lambda>j. j \<notin> seen) (filter (\<lambda>y. y \<noteq> i) (rev (remdups (rev ids)))) = filter (\<lambda>j. j \<notin> seen) (rev (remdups (rev ids)))"
      using True by (auto intro: filter_cong)
    with True show ?thesis
      by (simp add: first_occurrences_Cons idf Cons.IH del: rev.simps)
  next
    case False
    have "filter (\<lambda>j. j \<notin> seen) (filter (\<lambda>y. y \<noteq> i) (rev (remdups (rev ids)))) = filter (\<lambda>j. j \<notin> insert i seen) (rev (remdups (rev ids)))"
      by (auto intro: filter_cong)
    with False show ?thesis
      by (simp add: first_occurrences_Cons idf Cons.IH del: rev.simps)
  qed
qed

lemma ensure_unique_first_occurrences:
  "fst (ensure_unique (map WorkspaceConfig_of_id ids) {} [] logs) =
     map WorkspaceConfig_of_id (rev (remdups (rev ids)))"
  by (simp add: ensure_unique_of_ids)

lemma strip_Nil: "strip [] = []"
  by (simp add: strip_def rstrip_def lstrip_def)

lemma strip_default: "strip ''default'' = ''default''"
  by (simp add: strip_def rstrip_def lstrip_def isspace_def)

subsection \<open>Configuration parser\<close>

lemma load_workspace_configs_ids:
  assumes "environ ''WORKSPACES'' = Some raw" and "parse_workspace_ids raw \<noteq> []"
  shows "fst (load_workspace_configs environ a) =
           map WorkspaceConfig_of_id (rev (remdups (rev (parse_workspace_ids raw))))"
proof -
  from assms(2) have "raw \<noteq> []"
    by (auto simp: parse_workspace_ids_def strip_def rstrip_def lstrip_def)
  with assms show ?thesis
    by (simp add: load_workspace_configs_def Let_def ensure_unique_first_occurrences)
qed

lemma load_workspace_configs_no_ids:
  assumes "environ ''WORKSPACES'' = None \<or>
           (\<exists>raw. environ ''WORKSPACES'' = Some raw \<and> parse_workspace_ids raw = [])"
  shows "fst (load_workspace_configs environ a) =
           [WorkspaceConfig_of_id
              (or_else (Some (strip (or_else (workspace a)
                 (case environ ''WORKSPACE'' of None \<Rightarrow> [] | Some v \<Rightarrow> v)))) ''default'')]"
  using assms
  by (auto simp: load_workspace_configs_def Let_def WorkspaceConfig_of_id_def)

lemma load_workspace_configs_not_Nil:
  "fst (load_workspace_configs environ a :: 'v WorkspaceConfig list \<times> log_record list) \<noteq> []"
proof (cases "environ ''WORKSPACES'' = None \<or>
           (\<exists>raw. environ ''WORKSPACES'' = Some raw \<and> parse_workspace_ids raw = [])")
  case True
  then show ?thesis
    by (simp only: load_workspace_configs_no_ids) simp
next
  case False
  then obtain raw where raw: "environ ''WORKSPACES'' = Some raw" "parse_workspace_ids raw \<noteq> []"
    by auto
  then show ?thesis
    by (simp add: load_workspace_configs_ids)
qed

text \<open>
  Claim C2. When the environment variable \<open>WORKSPACES\<close> holds the string \<open>raw\<close>,
  \<open>load_workspace_configs\<close> splits it on commas, strips each piece and drops the empty
  ones; it returns one minimal configuration per remaining piece, in the order of the
  input, each id at its first occurrence only. When no piece remains, the result is the
  one the function gives without \<open>WORKSPACES\<close>.
\<close>

theorem load_workspace_configs_aggregate:
  assumes "environ ''WORKSPACES'' = Some raw"
  shows "fst (load_workspace_configs environ a :: 'v WorkspaceConfig list \<times> log_record list) =
     (let ids = filter (\<lambda>piece. piece \<noteq> []) (map strip (split CHR '','' raw))
      in if ids = [] then fst (load_workspace_configs (environ(''WORKSPACES'' := None)) a)
         else map WorkspaceConfig_of_id (rev (remdups (rev ids))))"
proof (cases "parse_workspace_ids raw = []")
  case True
  with assms show ?thesis
    by (simp add: load_workspace_configs_def parse_workspace_ids_def Let_def)
next
  case False
  with assms show ?thesis
    by (simp add: load_workspace_configs_ids Let_def) (simp add: parse_workspace_ids_def)
qed

text \<open>The input \<open>"a, b,,a , c"\<close> yields the configurations of \<open>a\<close>, \<open>b\<close>, \<open>c\<close>.\<close>

theorem load_workspace_configs_aggregate_witness:
  "fst (load_workspace_configs (Map.empty(''WORKSPACES'' \<mapsto> ''a, b,,a , c'')) \<lparr>workspace = None\<rparr>)
     = [WorkspaceConfig_of_id ''a'', WorkspaceConfig_of_id ''b'',
        WorkspaceConfig_of_id ''c'' :: unit WorkspaceConfig]"
proof -
  have env: "(Map.empty(''WORKSPACES'' \<mapsto> ''a, b,,a , c'')) ''WORKSPACES'' = Some ''a, b,,a , c''"
    by simp
  have ids: "filter (\<lambda>piece. piece \<noteq> []) (map strip (split CHR '','' ''a, b,,a , c''))
               = [''a'', ''b'', ''a'', ''c'']"
    by (simp add: strip_def rstrip_def lstrip_def isspace_def)
  show ?thesis
    using load_workspace_configs_aggregate
            [where ?'v = unit, of "Map.empty(''WORKSPACES'' \<mapsto> ''a, b,,a , c'')" "''a, b,,a , c''"
                "\<lparr>workspace = None\<rparr>", OF env]
    by (simp only: ids Let_def) simp
qed

text \<open>
  Claim C3. \<open>load_workspace_configs\<close> has no failing branch and its result is never
  empty. When \<open>WORKSPACES\<close> is unset, empty or leaves no id, the result is exactly one
  minimal configuration: its id is taken from \<open>args.workspace\<close> when that is a non-empty
  string, else from the environment variable \<open>WORKSPACE\<close> when it is set, else it is
  \<open>"default"\<close>; the value is stripped, and \<open>"default"\<close> replaces a value that strips to
  nothing.
\<close>

theorem load_workspace_configs_single:
  "(fst (load_workspace_configs environ a) :: 'v WorkspaceConfig list) \<noteq> [] \<and>
   ((environ ''WORKSPACES'' = None \<or>
     (\<exists>raw. environ ''WORKSPACES'' = Some raw \<and> parse_workspace_ids raw = [])) \<longrightarrow>
    (fst (load_workspace_configs environ a) :: 'v WorkspaceConfig list) =
      [WorkspaceConfig_of_id
         (let from_env = (case environ ''WORKSPACE'' of Some v \<Rightarrow> v | None \<Rightarrow> ''default'');
              chosen = (case workspace a of
                          Some v \<Rightarrow> if v \<noteq> [] then v else from_env
                        | None \<Rightarrow> from_env)
          in if strip chosen = [] then ''default'' else strip chosen)])"
proof (intro conjI impI)
  show "fst (load_workspace_configs environ a) \<noteq> []"
    by (rule load_workspace_configs_not_Nil)
next
  assume "environ ''WORKSPACES'' = None \<or>
     (\<exists>raw. environ ''WORKSPACES'' = Some raw \<and> parse_workspace_ids raw = [])"
  then have "fst (load_workspace_configs environ a) =
           [WorkspaceConfig_of_id
              (or_else (Some (strip (or_else (workspace a)
                 (case environ ''WORKSPACE'' of None \<Rightarrow> [] | Some v \<Rightarrow> v)))) ''default'')]"
    by (rule load_workspace_configs_no_ids)
  also have "or_else (Some (strip (or_else (workspace a)
                 (case environ ''WORKSPACE'' of None \<Rightarrow> [] | Some v \<Rightarrow> v)))) ''default'' =
     (let from_env = (case environ ''WORKSPACE'' of Some v \<Rightarrow> v | None \<Rightarrow> ''default'');
              chosen = (case workspace a of
                          Some v \<Rightarrow> if v \<noteq> [] then v else from_env
                        | None \<Rightarrow> from_env)
          in if strip chosen = [] then ''default'' else strip chosen)"
    by (auto simp: or_else_def Let_def strip_default strip_Nil split: option.splits)
  finally show "fst (load_workspace_configs environ a) =
      [WorkspaceConfig_of_id
         (let from_env = (case environ ''WORKSPACE'' of Some v \<Rightarrow> v | None \<Rightarrow> ''default'');
              chosen = (case workspace a of
                          Some v \<Rightarrow> if v \<noteq> [] then v else from_env
                        | None \<Rightarrow> from_env)
          in if strip chosen = [] then ''default'' else strip chosen)]" .
qed

text \<open>
  With nothing set the result is the configuration of \<open>"default"\<close>; with \<open>WORKSPACES\<close>
  holding only commas and blanks, the argument \<open>" cli "\<close> wins over \<open>WORKSPACE\<close>.
\<close>

theorem load_workspace_configs_single_witness:
  "fst (load_workspace_configs Map.empty \<lparr>workspace = None\<rparr>)
     = [WorkspaceConfig_of_id ''default'' :: unit WorkspaceConfig]
   \<and> fst (load_workspace_configs (Map.empty(''WORKSPACES'' \<mapsto> '' , ,'', ''WORKSPACE'' \<mapsto> ''env''))
            \<lparr>workspace = Some '' cli ''\<rparr>) = [WorkspaceConfig_of_id ''cli'' :: unit WorkspaceConfig]"
proof -
  have none: "parse_workspace_ids '' , ,'' = []"
    by (simp add: parse_workspace_ids_def strip_def rstrip_def lstrip_def isspace_def)
  have cli: "strip '' cli '' = ''cli''"
    by (simp add: strip_def rstrip_def lstrip_def isspace_def)
  show ?thesis
    using load_workspace_configs_single [where ?'v = unit, of Map.empty "\<lparr>workspace = None\<rparr>"]
          load_workspace_configs_single
            [where ?'v = unit, of "Map.empty(''WORKSPACES'' \<mapsto> '' , ,'', ''WORKSPACE'' \<mapsto> ''env'')"
                "\<lparr>workspace = Some '' cli ''\<rparr>"]
    by (simp add: none cli strip_default)
qed

subsection \<open>Registry\<close>

lemma map_of_dict_setitem: "map_of (dict_setitem k v d) = (map_of d)(k \<mapsto> v)"
  by (induction d) (auto simp: fun_eq_iff)

lemma keys_dict_setitem:
  "map fst (dict_setitem k v d) = (if k \<in> set (map fst d) then map fst d else map fst d @ [k])"
  by (induction d) force+

lemma length_dict_setitem:
  "length (dict_setitem k v d) = (if k \<in> set (map fst d) then length d else Suc (length d))"
  by (induction d) force+

lemma distinct_dict_setitem:
  "distinct (map fst d) \<Longrightarrow> distinct (map fst (dict_setitem k v d))"
  by (simp add: keys_dict_setitem)

lemma set_dict_setitem:
  "set (dict_setitem k v d) \<subseteq> insert (k, v) (set d)"
  by (induction d) (auto split: if_splits)

lemma register_all_snoc:
  "register_all (ctxs @ [ctx]) = fst (register (register_all ctxs) ctx)"
  by (simp add: register_all_def)

lemma register_all_Nil: "contexts (register_all []) = []"
  by (simp add: register_all_def WorkspaceRegistry_init_def)

lemma contexts_register:
  "contexts (fst (register self ctx)) = dict_setitem (ctx_id ctx) ctx (contexts self)"
  by (simp add: register_def)

lemma get_register:
  "get (fst (register self ctx)) i = (if i = ctx_id ctx then Some ctx else get self i)"
  by (simp add: get_def contexts_register map_of_dict_setitem)

lemma keys_register_all:
  "set (map fst (contexts (register_all ctxs))) = ctx_id ` set ctxs"
  by (induction ctxs rule: rev_induct)
     (auto simp: register_all_Nil register_all_snoc contexts_register keys_dict_setitem)

lemma distinct_register_all: "distinct (map fst (contexts (register_all ctxs)))"
  by (induction ctxs rule: rev_induct)
     (simp_all add: register_all_Nil register_all_snoc contexts_register distinct_dict_setitem)

lemma get_register_all:
  "get (register_all ctxs) i = find (\<lambda>ctx. ctx_id ctx = i) (rev ctxs)"
proof (induction ctxs rule: rev_induct)
  case Nil
  show ?case by (simp add: get_def register_all_Nil)
next
  case (snoc ctx ctxs)
  then show ?case
    by (auto simp: register_all_snoc get_register)
qed

lemma entries_keyed_by_id:
  "(k, ctx) \<in> set (contexts (register_all ctxs)) \<Longrightarrow> k = ctx_id ctx"
proof (induction ctxs arbitrary: k ctx rule: rev_induct)
  case Nil
  then show ?case by (simp add: register_all_Nil)
next
  case (snoc c ctxs)
  from snoc.prems have "(k, ctx) \<in> insert (ctx_id c, c) (set (contexts (register_all ctxs)))"
    using set_dict_setitem [of "ctx_id c" c "contexts (register_all ctxs)"]
    by (auto simp: register_all_snoc contexts_register)
  with snoc.IH show ?case by auto
qed

lemma count_distinct_key:
  "distinct (map fst d) \<Longrightarrow>
     length (filter (\<lambda>entry. fst entry = k) d) = (if k \<in> set (map fst d) then 1 else 0)"
  by (induction d) (auto simp: image_iff)

lemma registered_iff:
  "map_of (contexts (register_all ctxs)) i \<noteq> None \<longleftrightarrow> i \<in> ctx_id ` set ctxs"
  using keys_register_all [of ctxs] by (simp add: map_of_eq_None_iff)

text \<open>
  Claim C4. On a registry built by any sequence of \<open>register\<close> calls, registering a
  context returns a registry (there is no failing branch) in which \<open>get\<close> of the
  context's id is that context and exactly one entry has that id; an id that was
  present keeps the number of entries unchanged, and the replacement is logged as a
  warning. After the whole sequence, \<open>get i\<close> is the context registered last under
  \<open>i\<close>, and an id has one entry if it was registered and none otherwise.
\<close>

theorem register_last_write_wins:
  "get (fst (register (register_all ctxs) ctx)) (ctx_id ctx) = Some ctx \<and>
   length (filter (\<lambda>entry. fst entry = ctx_id ctx)
             (contexts (fst (register (register_all ctxs) ctx)))) = 1 \<and>
   length (contexts (fst (register (register_all ctxs) ctx))) =
     (if ctx_id ctx \<in> ctx_id ` set ctxs then length (contexts (register_all ctxs))
      else Suc (length (contexts (register_all ctxs)))) \<and>
   snd (register (register_all ctxs) ctx) =
     (if ctx_id ctx \<in> ctx_id ` set ctxs
      then [Warning (''Workspace '' @ ctx_id ctx @ '' already registered, overriding'')]
      else [])
     @ [Info (''Registered workspace: '' @ ctx_id ctx)] \<and>
   get (register_all ctxs) i = find (\<lambda>c. ctx_id c = i) (rev ctxs) \<and>
   length (filter (\<lambda>entry. fst entry = i) (contexts (register_all ctxs))) =
     (if i \<in> ctx_id ` set ctxs then 1 else 0)"
proof -
  have "snd (register (register_all ctxs) ctx) =
     (if ctx_id ctx \<in> ctx_id ` set ctxs
      then [Warning (''Workspace '' @ ctx_id ctx @ '' already registered, overriding'')]
      else [])
     @ [Info (''Registered workspace: '' @ ctx_id ctx)]"
    using registered_iff [of ctxs "ctx_id ctx"] by (simp add: register_def)
  moreover
  have "length (filter (\<lambda>entry. fst entry = ctx_id ctx)
             (contexts (register_all (ctxs @ [ctx])))) = 1"
    using count_distinct_key [OF distinct_register_all, of "ctx_id ctx" "ctxs @ [ctx]"]
    by (simp only: keys_register_all) simp
  moreover have "length (filter (\<lambda>entry. fst entry = i) (contexts (register_all ctxs))) =
     (if i \<in> ctx_id ` set ctxs then 1 else 0)"
    using count_distinct_key [OF distinct_register_all, of i ctxs]
    by (simp only: keys_register_all)
  moreover have "length (contexts (fst (register (register_all ctxs) ctx))) =
     (if ctx_id ctx \<in> ctx_id ` set ctxs then length (contexts (register_all ctxs))
      else Suc (length (contexts (register_all ctxs))))"
    by (simp only: contexts_register length_dict_setitem keys_register_all)
  ultimately show ?thesis
    by (simp only: get_register get_register_all register_all_snoc) simp
qed

text \<open>The equations that evaluate a registry built from concrete contexts.\<close>

lemmas registry_eval =
  register_all_def register_def WorkspaceRegistry_init_def get_def list_contexts_def
  WorkspaceContext_of_def ctx_id_def

text \<open>Registering twice under \<open>"w"\<close> leaves one entry, the second context.\<close>

theorem register_last_write_wins_witness:
  "get (fst (register (register_all [WorkspaceContext_of ''w'' None True 1 True None])
                (WorkspaceContext_of ''w'' None True 2 True None))) ''w''
     = Some (WorkspaceContext_of ''w'' None True 2 True None) \<and>
   length (contexts (fst (register (register_all [WorkspaceContext_of ''w'' None True 1 True None])
                (WorkspaceContext_of ''w'' None True 2 True None)))) = 1"
proof -
  have i: "ctx_id (WorkspaceContext_of ''w'' None True 2 True None) = ''w''"
    by (simp add: registry_eval)
  have l: "length (contexts (register_all [WorkspaceContext_of ''w'' None True 1 True None])) = 1"
    by (simp add: registry_eval)
  show ?thesis
    using register_last_write_wins
            [of "[WorkspaceContext_of ''w'' None True 1 True None]"
                "WorkspaceContext_of ''w'' None True 2 True None" "''w''"]
    by (simp add: i l) (simp add: registry_eval)
qed

text \<open>
  Claim C10. After any sequence of \<open>register\<close> calls every entry is stored under the id
  of its context: the key of an entry is the context's id, \<open>get i\<close> returns nothing or
  a context whose id is \<open>i\<close>, and every context listed by \<open>list\<close> is the one \<open>get\<close>
  returns for its own id.
\<close>

theorem registry_key_consistency:
  "(\<forall>entry \<in> set (contexts (register_all ctxs)). fst entry = ctx_id (snd entry)) \<and>
   (\<forall>i ctx. get (register_all ctxs) i = Some ctx \<longrightarrow> ctx_id ctx = i) \<and>
   (\<forall>ctx \<in> set (list_contexts (register_all ctxs)). get (register_all ctxs) (ctx_id ctx) = Some ctx)"
proof (intro conjI ballI allI impI)
  fix entry
  assume "entry \<in> set (contexts (register_all ctxs))"
  then show "fst entry = ctx_id (snd entry)"
    using entries_keyed_by_id [of "fst entry" "snd entry" ctxs] by simp
next
  fix i ctx
  assume "get (register_all ctxs) i = Some ctx"
  then have "(i, ctx) \<in> set (contexts (register_all ctxs))"
    by (simp add: get_def map_of_SomeD)
  then show "ctx_id ctx = i"
    using entries_keyed_by_id [of i ctx ctxs] by simp
next
  fix ctx
  assume "ctx \<in> set (list_contexts (register_all ctxs))"
  then obtain k where k: "(k, ctx) \<in> set (contexts (register_all ctxs))"
    by (auto simp: list_contexts_def)
  then have "k = ctx_id ctx"
    by (rule entries_keyed_by_id)
  with k show "get (register_all ctxs) (ctx_id ctx) = Some ctx"
    by (simp add: get_def distinct_register_all)
qed

text \<open>
  Three registrations, two of them under \<open>"a"\<close>: \<open>get "a"\<close> is the later context
  and its id is \<open>"a"\<close>; the list holds two contexts, each found under its own id.
\<close>

theorem registry_key_consistency_witness:
  "get (register_all [WorkspaceContext_of ''a'' None True 1 True None,
                      WorkspaceContext_of ''b'' None True 2 True None,
                      WorkspaceContext_of ''a'' None True 3 True None]) ''a''
     = Some (WorkspaceContext_of ''a'' None True 3 True None) \<and>
   ctx_id (WorkspaceContext_of ''a'' None True 3 True None) = ''a'' \<and>
   list_contexts (register_all [WorkspaceContext_of ''a'' None True 1 True None,
                      WorkspaceContext_of ''b'' None True 2 True None,
                      WorkspaceContext_of ''a'' None True 3 True None])
     = [WorkspaceContext_of ''a'' None True 3 True None,
        WorkspaceContext_of ''b'' None True 2 True None] \<and>
   get (register_all [WorkspaceContext_of ''a'' None True 1 True None,
                      WorkspaceContext_of ''b'' None True 2 True None,
                      WorkspaceContext_of ''a'' None True 3 True None])
       (ctx_id (WorkspaceContext_of ''b'' None True 2 True None))
     = Some (WorkspaceContext_of ''b'' None True 2 True None)"
proof -
  let ?ctxs = "[WorkspaceContext_of ''a'' None True 1 True None,
                WorkspaceContext_of ''b'' None True 2 True None,
                WorkspaceContext_of ''a'' None True 3 True None]"
  have g: "get (register_all ?ctxs) ''a'' = Some (WorkspaceContext_of ''a'' None True 3 True None)"
    by (simp add: registry_eval)
  have l: "list_contexts (register_all ?ctxs)
             = [WorkspaceContext_of ''a'' None True 3 True None,
                WorkspaceContext_of ''b'' None True 2 True None]"
    by (simp add: registry_eval)
  have m: "WorkspaceContext_of ''b'' None True 2 True None \<in> set (list_contexts (register_all ?ctxs))"
    by (simp only: l) simp
  from registry_key_consistency [of ?ctxs] g
  have "ctx_id (WorkspaceContext_of ''a'' None True 3 True None) = ''a''"
    by blast
  moreover from registry_key_consistency [of ?ctxs] m
  have "get (register_all ?ctxs) (ctx_id (WorkspaceContext_of ''b'' None True 2 True None))
          = Some (WorkspaceContext_of ''b'' None True 2 True None)"
    by blast
  ultimately show ?thesis
    using g l by simp
qed

subsection \<open>Serialised summary\<close>

text \<open>
  Claim C9, as the code has it. The summary of a context has the six keys \<open>id\<close>,
  \<open>display_name\<close>, \<open>description\<close>, \<open>enabled\<close>, \<open>error\<close>, \<open>metadata\<close>. It exposes the
  configuration's id; a display name that is the configuration's display name when that
  is a non-empty string and the id otherwise; the description; an enabled flag that is
  the conjunction of the configuration's flag and "error is \<open>None\<close>"; the error and
  the metadata unchanged.
\<close>

theorem as_dict_summary:
  "map fst (as_dict ctx) =
     [''id'', ''display_name'', ''description'', ''enabled'', ''error'', ''metadata''] \<and>
   map_of (as_dict ctx) ''id'' = Some (Str (id_field (config ctx))) \<and>
   map_of (as_dict ctx) ''display_name'' =
     Some (Str (case display_name (config ctx) of
                  None \<Rightarrow> id_field (config ctx)
                | Some n \<Rightarrow> if n = [] then id_field (config ctx) else n)) \<and>
   map_of (as_dict ctx) ''description'' =
     Some (case description (config ctx) of None \<Rightarrow> NoneValue | Some d \<Rightarrow> Str d) \<and>
   map_of (as_dict ctx) ''enabled'' = Some (Bool (enabled (config ctx) \<and> error ctx = None)) \<and>
   map_of (as_dict ctx) ''error'' =
     Some (case error ctx of None \<Rightarrow> NoneValue | Some e \<Rightarrow> Str e) \<and>
   map_of (as_dict ctx) ''metadata'' = Some (Dict (metadata (config ctx)))"
  by (simp add: as_dict_def or_else_def optional_str_def split: option.splits)
text \<open>
  Claim C9 as stated fails for a display name that is present and empty: the summary
  shows the id \<open>"w"\<close>, not the display name \<open>""\<close>.
\<close>

theorem as_dict_empty_display_name:
  "display_name (config (WorkspaceContext_of ''w'' (Some '''') True 0 True None)) = Some '''' \<and>
   map_of (as_dict (WorkspaceContext_of ''w'' (Some '''') True 0 True None)) ''display_name''
     = Some (Str ''w'') \<and>
   map_of (as_dict (WorkspaceContext_of ''w'' (Some '''') True 0 True None)) ''display_name''
     \<noteq> Some (Str '''')"
  by (simp add: as_dict_def or_else_def WorkspaceContext_of_def)

subsection \<open>Current workspace\<close>

text \<open>
  Claim C7. When the slot is unset (nothing was set in this execution context, or
  \<open>None\<close> was), \<open>get_current_workspace\<close> raises \<open>RuntimeError\<close>, and it never raises
  the \<open>HTTPException\<close> that a caller would see as "not found". When a context is bound
  it returns that context, and it does so right after the dependency's \<open>set\<close>, whatever
  the slot held before.
\<close>

theorem get_current_workspace_contract:
  "get_current_workspace Missing
      = Inl (RuntimeError ''Workspace context not found in the current request scope'') \<and>
   get_current_workspace (Value None)
      = Inl (RuntimeError ''Workspace context not found in the current request scope'') \<and>
   get_current_workspace (Value (Some ctx)) = Inr ctx \<and>
   get_current_workspace (snd (ContextVar_set var (Some ctx))) = Inr ctx \<and>
   (\<forall>status detail. get_current_workspace var \<noteq> Inl (HTTPException status detail))"
  by (simp add: get_current_workspace_def ContextVar_get_def ContextVar_set_def
           split: var_state.splits option.splits)

subsection \<open>Request scoping\<close>

lemma dependency_apply_unknown:
  "get self workspace_id = None \<Longrightarrow>
     dependency_apply self workspace_id handler var =
       (Rejected (HTTPException 404 (''Workspace '' @ quote workspace_id @ '' not found'')), var)"
  by (simp add: dependency_apply_def)

lemma dependency_apply_unavailable:
  "get self workspace_id = Some ctx \<Longrightarrow> \<not> enabled (config ctx) \<or> truthy (error ctx) \<Longrightarrow>
     dependency_apply self workspace_id handler var =
       (Rejected (HTTPException 404
          (or_else (error ctx) (''Workspace '' @ quote workspace_id @ '' is disabled''))), var)"
  by (simp add: dependency_apply_def)

lemma dependency_apply_bound:
  "get self workspace_id = Some ctx \<Longrightarrow> enabled (config ctx) \<Longrightarrow> \<not> truthy (error ctx) \<Longrightarrow>
     dependency_apply self workspace_id handler var =
       (Exited (fst (handler ctx (Value (Some ctx)))), var)"
  by (simp add: dependency_apply_def ContextVar_set_def ContextVar_reset_def split: prod.splits)
text \<open>
  Claim C1, as the code has it. A binding attempt for an id that is not registered is
  rejected with status 404 and the message "Workspace '<id>' not found". For an id
  that resolves to a context whose configuration is disabled, or whose error is a
  non-empty string, it is rejected with status 404; the message is the error text when
  that text is non-empty and the message "Workspace '<id>' is disabled" otherwise. For
  an id that resolves to an enabled context whose error is \<open>None\<close>, the context is
  yielded to the handler, which runs with the slot bound to it. In every case the slot
  is afterwards what it was before.
\<close>

theorem dependency_apply_validation:
  "(get self workspace_id = None \<longrightarrow>
      dependency_apply self workspace_id handler var =
        (Rejected (HTTPException 404 (''Workspace '' @ quote workspace_id @ '' not found'')), var)) \<and>
   (get self workspace_id = Some ctx \<and>
    (\<not> enabled (config ctx) \<or> (\<exists>msg. error ctx = Some msg \<and> msg \<noteq> [])) \<longrightarrow>
      dependency_apply self workspace_id handler var =
        (Rejected (HTTPException 404
           (case error ctx of
              Some msg \<Rightarrow> if msg \<noteq> [] then msg
                         else ''Workspace '' @ quote workspace_id @ '' is disabled''
            | None \<Rightarrow> ''Workspace '' @ quote workspace_id @ '' is disabled'')), var)) \<and>
   (get self workspace_id = Some ctx \<and> enabled (config ctx) \<and> error ctx = None \<longrightarrow>
      dependency_apply self workspace_id handler var =
        (Exited (fst (handler ctx (Value (Some ctx)))), var) \<and>
      get_current_workspace (Value (Some ctx)) = Inr ctx)"
proof (intro conjI impI)
  assume "get self workspace_id = None"
  then show "dependency_apply self workspace_id handler var =
      (Rejected (HTTPException 404 (''Workspace '' @ quote workspace_id @ '' not found'')), var)"
    by (rule dependency_apply_unknown)
next
  assume a: "get self workspace_id = Some ctx \<and>
    (\<not> enabled (config ctx) \<or> (\<exists>msg. error ctx = Some msg \<and> msg \<noteq> []))"
  then have "\<not> enabled (config ctx) \<or> truthy (error ctx)"
    by (auto simp: truthy_def)
  with a show "dependency_apply self workspace_id handler var =
        (Rejected (HTTPException 404
           (case error ctx of
              Some msg \<Rightarrow> if msg \<noteq> [] then msg
                         else ''Workspace '' @ quote workspace_id @ '' is disabled''
            | None \<Rightarrow> ''Workspace '' @ quote workspace_id @ '' is disabled'')), var)"
    by (simp add: dependency_apply_unavailable or_else_def split: option.splits)
next
  assume a: "get self workspace_id = Some ctx \<and> enabled (config ctx) \<and> error ctx = None"
  then show "dependency_apply self workspace_id handler var =
        (Exited (fst (handler ctx (Value (Some ctx)))), var)"
    by (simp add: dependency_apply_bound truthy_def)
next
  show "get_current_workspace (Value (Some ctx)) = Inr ctx"
    by (simp add: get_current_workspace_def ContextVar_get_def)
qed
text \<open>
  An unknown id, a disabled context, a context with the error \<open>"boom"\<close> and an
  available context.
\<close>

theorem dependency_apply_validation_witness:
  "dependency_apply
     (register_all [WorkspaceContext_of ''ok'' None True 1 True None,
                    WorkspaceContext_of ''off'' None False 2 True None,
                    WorkspaceContext_of ''bad'' None True 3 True (Some ''boom'')])
     ''missing'' (handler_ending None) Missing
     = (Rejected (HTTPException 404 (''Workspace '' @ quote ''missing'' @ '' not found'')), Missing) \<and>
   dependency_apply
     (register_all [WorkspaceContext_of ''ok'' None True 1 True None,
                    WorkspaceContext_of ''off'' None False 2 True None,
                    WorkspaceContext_of ''bad'' None True 3 True (Some ''boom'')])
     ''off'' (handler_ending None) Missing
     = (Rejected (HTTPException 404 (''Workspace '' @ quote ''off'' @ '' is disabled'')), Missing) \<and>
   dependency_apply
     (register_all [WorkspaceContext_of ''ok'' None True 1 True None,
                    WorkspaceContext_of ''off'' None False 2 True None,
                    WorkspaceContext_of ''bad'' None True 3 True (Some ''boom'')])
     ''bad'' (handler_ending None) Missing
     = (Rejected (HTTPException 404 ''boom''), Missing) \<and>
   dependency_apply
     (register_all [WorkspaceContext_of ''ok'' None True 1 True None,
                    WorkspaceContext_of ''off'' None False 2 True None,
                    WorkspaceContext_of ''bad'' None True 3 True (Some ''boom'')])
     ''ok'' (handler_ending None) Missing
     = (Exited None, Missing)"
proof -
  let ?reg = "register_all [WorkspaceContext_of ''ok'' None True 1 True None,
                    WorkspaceContext_of ''off'' None False 2 True None,
                    WorkspaceContext_of ''bad'' None True 3 True (Some ''boom'')]"
  have g0: "get ?reg ''missing'' = None"
    by (simp add: registry_eval)
  have g1: "get ?reg ''off'' = Some (WorkspaceContext_of ''off'' None False 2 True None)"
    by (simp add: registry_eval)
  have g2: "get ?reg ''bad'' = Some (WorkspaceContext_of ''bad'' None True 3 True (Some ''boom''))"
    by (simp add: registry_eval)
  have g3: "get ?reg ''ok'' = Some (WorkspaceContext_of ''ok'' None True 1 True None)"
    by (simp add: registry_eval)
  from g0 dependency_apply_validation [of ?reg "''missing''" "handler_ending None" Missing]
  have r0: "dependency_apply ?reg ''missing'' (handler_ending None) Missing
     = (Rejected (HTTPException 404 (''Workspace '' @ quote ''missing'' @ '' not found'')), Missing)"
    by blast
  from g1 dependency_apply_validation
            [of ?reg "''off''" "handler_ending None" Missing
                "WorkspaceContext_of ''off'' None False 2 True None"]
  have r1: "dependency_apply ?reg ''off'' (handler_ending None) Missing
     = (Rejected (HTTPException 404 (''Workspace '' @ quote ''off'' @ '' is disabled'')), Missing)"
    by (simp add: WorkspaceContext_of_def)
  from g2 dependency_apply_validation
            [of ?reg "''bad''" "handler_ending None" Missing
                "WorkspaceContext_of ''bad'' None True 3 True (Some ''boom'')"]
  have r2: "dependency_apply ?reg ''bad'' (handler_ending None) Missing
     = (Rejected (HTTPException 404 ''boom''), Missing)"
    by (simp add: WorkspaceContext_of_def)
  from g3 dependency_apply_validation
            [of ?reg "''ok''" "handler_ending None" Missing
                "WorkspaceContext_of ''ok'' None True 1 True None"]
  have r3: "dependency_apply ?reg ''ok'' (handler_ending None) Missing = (Exited None, Missing)"
    by (simp add: WorkspaceContext_of_def handler_ending_def)
  from r0 r1 r2 r3 show ?thesis
    by (intro conjI)
qed
text \<open>
  Claim C1 as stated fails for contexts whose error is set to the empty string. The
  disabled one is rejected with the generic message, not with its error text \<open>""\<close>;
  the enabled one is not rejected: it is bound and the handler runs.
\<close>

theorem dependency_apply_empty_error:
  "dependency_apply
     (register_all [WorkspaceContext_of ''off'' None False 1 True (Some ''''),
                    WorkspaceContext_of ''on'' None True 2 True (Some '''')])
     ''off'' (handler_ending None) Missing
     = (Rejected (HTTPException 404 (''Workspace '' @ quote ''off'' @ '' is disabled'')), Missing) \<and>
   ''Workspace '' @ quote ''off'' @ '' is disabled'' \<noteq> '''' \<and>
   dependency_apply
     (register_all [WorkspaceContext_of ''off'' None False 1 True (Some ''''),
                    WorkspaceContext_of ''on'' None True 2 True (Some '''')])
     ''on'' (handler_ending None) Missing
     = (Exited None, Missing) \<and>
   error (WorkspaceContext_of ''off'' None False 1 True (Some '''')) = Some '''' \<and>
   error (WorkspaceContext_of ''on'' None True 2 True (Some '''')) = Some ''''"
  by (simp add: dependency_apply_def registry_eval truthy_def or_else_def handler_ending_def
        ContextVar_set_def ContextVar_reset_def)
text \<open>
  Claim C8 fails on the code for an error that is set to the empty string. A context
  that is enabled and whose error is \<open>""\<close> is not rejected: it is bound and yielded,
  while the summary of the same context reports it as not enabled.
\<close>

theorem empty_error_is_bound:
  assumes "get self workspace_id = Some ctx" and "enabled (config ctx)" and "error ctx = Some ''''"
  shows "dependency_apply self workspace_id handler var =
           (Exited (fst (handler ctx (Value (Some ctx)))), var) \<and>
         map_of (as_dict ctx) ''enabled'' = Some (Bool False)"
  using assms
  by (simp add: dependency_apply_bound truthy_def as_dict_def)

text \<open>The registry holding one such context under \<open>"w"\<close>, and a request for \<open>"w"\<close>.\<close>

theorem empty_error_is_bound_witness:
  "get (register_all [WorkspaceContext_of ''w'' None True 1 True (Some '''')]) ''w''
     = Some (WorkspaceContext_of ''w'' None True 1 True (Some '''')) \<and>
   error (WorkspaceContext_of ''w'' None True 1 True (Some '''')) = Some '''' \<and>
   dependency_apply (register_all [WorkspaceContext_of ''w'' None True 1 True (Some '''')])
     ''w'' (handler_ending None) Missing = (Exited None, Missing) \<and>
   map_of (as_dict (WorkspaceContext_of ''w'' None True 1 True (Some ''''))) ''enabled''
     = Some (Bool False)"
proof -
  let ?ctx = "WorkspaceContext_of ''w'' None True 1 True (Some '''')"
  have g: "get (register_all [?ctx]) ''w'' = Some ?ctx"
    by (simp add: registry_eval)
  have e: "enabled (config ?ctx)" and r: "error ?ctx = Some ''''"
    by (simp_all add: WorkspaceContext_of_def)
  from empty_error_is_bound [OF g e r, of "handler_ending None" Missing] g r
  show ?thesis
    by (simp add: handler_ending_def)
qed

text \<open>
  Claim C5. Whatever the registry, the id and the slot, and however the request
  handling ends (it returns, it raises, it is cancelled) and whatever it did to the
  slot meanwhile, the slot after the dependency is the slot before it: unset when it
  was unset, the outer context when the scope was nested in another one. So
  \<open>get_current_workspace\<close> answers afterwards as it did before.
\<close>

theorem dependency_apply_restores_slot:
  "snd (dependency_apply self workspace_id handler var) = var \<and>
   get_current_workspace (snd (dependency_apply self workspace_id handler var))
     = get_current_workspace var"
  by (simp add: dependency_apply_def ContextVar_set_def ContextVar_reset_def
           split: option.splits prod.splits)
text \<open>
  A scope nested in the scope of \<open>"outer"\<close>, whose handling overwrites the slot and is
  then cancelled: the slot is again bound to \<open>"outer"\<close>.
\<close>

theorem dependency_apply_restores_slot_witness:
  "dependency_apply (register_all [WorkspaceContext_of ''inner'' None True 1 True None])
     ''inner'' (handler_clobbering (Some (BaseException ''cancelled'')))
     (Value (Some (WorkspaceContext_of ''outer'' None True 2 True None)))
     = (Exited (Some (BaseException ''cancelled'')),
        Value (Some (WorkspaceContext_of ''outer'' None True 2 True None))) \<and>
   get_current_workspace
     (snd (dependency_apply (register_all [WorkspaceContext_of ''inner'' None True 1 True None])
        ''inner'' (handler_clobbering (Some (BaseException ''cancelled'')))
        (Value (Some (WorkspaceContext_of ''outer'' None True 2 True None)))))
     = Inr (WorkspaceContext_of ''outer'' None True 2 True None)"
proof -
  let ?reg = "register_all [WorkspaceContext_of ''inner'' None True 1 True None]"
  let ?h = "handler_clobbering (Some (BaseException ''cancelled'')) ::
              (unit, nat, unit) downstream"
  let ?outer = "Value (Some (WorkspaceContext_of ''outer'' None True 2 True None))"
  have f: "fst (dependency_apply ?reg ''inner'' ?h ?outer)
             = Exited (Some (BaseException ''cancelled''))"
    by (simp add: dependency_apply_def registry_eval truthy_def handler_clobbering_def
          ContextVar_set_def ContextVar_reset_def)
  have g: "get_current_workspace ?outer = Inr (WorkspaceContext_of ''outer'' None True 2 True None)"
    by (simp add: get_current_workspace_def ContextVar_get_def)
  from dependency_apply_restores_slot [of ?reg "''inner''" ?h ?outer] f g
  show ?thesis
    by (simp add: prod_eq_iff)
qed

subsection \<open>Shutdown\<close>














end
